theory Spec2Isabelle
  imports Complex_Main "HOL-Library.Log_Nat" "HOL-Library.Code_Target_Numeral"
begin

section \<open>Simulation-based combinational equivalence checking\<close>

text \<open>
  A shallow embedding of \<^verbatim>\<open>include/mockturtle/algorithms/simulation_cec.hpp\<close>: the
  class \<^verbatim>\<open>detail::simulation_cec_impl\<close> (the split planner, the pattern generator, the
  round loop and the output test) and the entry point \<^verbatim>\<open>simulation_cec\<close>.

  A HOL name cannot end in an underscore, so the private member functions
  \<^verbatim>\<open>max_m_\<close>, \<^verbatim>\<open>split_var_\<close>, \<^verbatim>\<open>rounds_\<close>, \<^verbatim>\<open>get_pattern_\<close> and \<^verbatim>\<open>is_equivalent_\<close>
  are called \<open>max_m_fn\<close>, \<open>split_var_fn\<close>, \<open>rounds_fn\<close>, \<open>get_pattern_fn\<close> and
  \<open>is_equivalent_fn\<close>.

  Conventions of the model.
  \<^item> A function whose C++ behaviour can be undefined returns an \<open>option\<close>; \<open>None\<close> stands
    for undefined behaviour: a floating-point value converted to \<^verbatim>\<open>uint32_t\<close> that does
    not fit, a shift of an \<^verbatim>\<open>int\<close> by 32 or more, the overflow of the \<^verbatim>\<open>int\<close> loop
    counter, the end of a function declared \<^verbatim>\<open>bool\<close> reached without a return
    statement. A caller of such a function is undefined as soon as the callee is.
  \<^item> The \<^verbatim>\<open>double\<close> arithmetic of \<^verbatim>\<open>max_m_\<close> and \<^verbatim>\<open>rounds_\<close> is idealised as exact
    real arithmetic; only the integer obtained by the final conversion is used.
  \<^item> \<^verbatim>\<open>uint32_t\<close> and node indices are natural numbers; the one subtraction that could
    wrap (\<^verbatim>\<open>N - split_var\<close>) is written modulo \<open>2 ^ 32\<close>.
  \<^item> The line that \<^verbatim>\<open>run\<close> prints on \<^verbatim>\<open>std::cout\<close> at the start of every round is kept
    as the list of the round numbers printed.
\<close>

subsection \<open>Statistics\<close>

record simulation_cec_stats =
  split_var :: nat
  rounds :: nat

subsection \<open>Collaborators\<close>

text \<open>
  Modelled from the spec: the network type \<^verbatim>\<open>Ntk\<close> is a template parameter and no
  network class is part of the file. A signal is a node together with its polarity; a
  network offers the number of stored nodes (\<^verbatim>\<open>_storage->nodes.size()\<close>), the number of
  primary inputs and its primary outputs in enumeration order.
\<close>

record signal =
  get_node :: nat
  is_complemented :: bool

record network =
  nodes_size :: nat
  num_pis :: nat
  pos :: "signal list"

text \<open>
  Modelled from the spec: \<^verbatim>\<open>foreach_pi\<close> enumerates the primary inputs by their 1-based
  index \<open>1, \<dots>, num_pis\<close> (in a miter the primary inputs are the nodes created first,
  after the constant node \<open>0\<close>).
\<close>

definition foreach_pi :: "network \<Rightarrow> nat list" where
  "foreach_pi ntk = [1..<Suc (num_pis ntk)]"

text \<open>
  Modelled from the spec: a truth table over \<open>W\<close> variables (\<^verbatim>\<open>kitty::dynamic_truth_table\<close>)
  is the list of its \<open>2 ^ W\<close> bits, bit \<open>j\<close> being the value under the assignment \<open>j\<close>.
  A new table is all zero.
\<close>

type_synonym dynamic_truth_table = "bool list"

definition new_tt :: "nat \<Rightarrow> dynamic_truth_table" where
  "new_tt num_vars = replicate (2 ^ num_vars) False"

text \<open>
  Modelled from the spec: \<^verbatim>\<open>create_nth_var\<close> overwrites a table with the canonical
  pattern of a variable, which alternates at period \<open>2 ^ var_index\<close>.
\<close>

definition create_nth_var :: "dynamic_truth_table \<Rightarrow> nat \<Rightarrow> dynamic_truth_table" where
  "create_nth_var tt var_index = map (\<lambda>j. odd (j div 2 ^ var_index)) [0..<length tt]"

text \<open>Modelled from the spec: \<^verbatim>\<open>operator~\<close>, the bitwise complement of a table.\<close>

definition tt_not :: "dynamic_truth_table \<Rightarrow> dynamic_truth_table" where
  "tt_not tt = map Not tt"

text \<open>Modelled from the spec: \<^verbatim>\<open>is_const0\<close>, the test for the all-zero table.\<close>

definition is_const0 :: "dynamic_truth_table \<Rightarrow> bool" where
  "is_const0 tt = list_all Not tt"

text \<open>
  Modelled from the spec: the pattern map (\<^verbatim>\<open>unordered_node_map\<close>) from nodes to tables.
  Reading a node that has no entry yields a default-constructed table, which has no bits.
\<close>

type_synonym pattern_t = "nat \<rightharpoonup> dynamic_truth_table"

definition pattern_at :: "pattern_t \<Rightarrow> nat \<Rightarrow> dynamic_truth_table" where
  "pattern_at p n = (case p n of None \<Rightarrow> [] | Some tt \<Rightarrow> tt)"

text \<open>
  The propagation engine \<^verbatim>\<open>simulate_nodes\<close> and the miter builder \<^verbatim>\<open>miter\<close> are
  parameters of the model: every statement below holds for all of them. The engine gets
  the network, the number of variables of its simulator and the pattern map, and returns
  the pattern map; the builder returns no network when the two networks do not fit.
\<close>

type_synonym simulator = "network \<Rightarrow> nat \<Rightarrow> pattern_t \<Rightarrow> pattern_t"

type_synonym miter_builder = "network \<Rightarrow> network \<Rightarrow> network option"

subsection \<open>The split planner\<close>

text \<open>
  The conversion of a \<^verbatim>\<open>double\<close> to \<^verbatim>\<open>uint32_t\<close> truncates towards zero, and is undefined
  when the truncated value is not a \<^verbatim>\<open>uint32_t\<close>.
\<close>

definition trunc :: "real \<Rightarrow> int" where
  "trunc v = (if 0 \<le> v then \<lfloor>v\<rfloor> else \<lceil>v\<rceil>)"

definition to_uint32 :: "real \<Rightarrow> nat option" where
  "to_uint32 v = (let t = trunc v in if 0 \<le> t \<and> t < 2 ^ 32 then Some (nat t) else None)"

text \<open>
  \<^verbatim>\<open>return log(pow(2, 29)/_ntk._storage->nodes.size()-32) / log(2) + 3;\<close>
  With no node the quotient is infinite, and with \<open>2 ^ 24\<close> nodes or more the argument of
  the logarithm is not positive (the logarithm is minus infinity or not a number): the
  conversion is undefined in each of these cases.
\<close>

definition max_m_fn :: "network \<Rightarrow> nat option" where
  "max_m_fn ntk =
     (let x = 2 powr 29 / real (nodes_size ntk) - 32 in
      if nodes_size ntk = 0 \<or> x \<le> 0 then None
      else to_uint32 (ln x / ln 2 + 3))"

definition split_var_fn :: "network \<Rightarrow> nat \<Rightarrow> nat option" where
  "split_var_fn ntk N =
     (case max_m_fn ntk of
        None \<Rightarrow> None
      | Some max_m \<Rightarrow> Some (if N > max_m then max_m else N))"

text \<open>\<^verbatim>\<open>return pow(2, N - split_var);\<close> with the difference taken in \<^verbatim>\<open>uint32_t\<close>.\<close>

definition rounds_fn :: "nat \<Rightarrow> nat \<Rightarrow> nat option" where
  "rounds_fn N sv = to_uint32 (2 powr real ((N + 2 ^ 32 - sv) mod 2 ^ 32))"

subsection \<open>The pattern generator\<close>

text \<open>
  \<^verbatim>\<open>get_pattern_\<close>. Its argument \<^verbatim>\<open>round_number\<close> is the \<^verbatim>\<open>int\<close> loop counter of \<^verbatim>\<open>run\<close>: a
  number from \<open>2 ^ 31\<close> on is no value of that type. For a primary input above the split
  the counter is shifted right by \<^verbatim>\<open>pi_number - _st.split_var - 1\<close>, which is undefined
  when the shift amount is 32, the width of \<^verbatim>\<open>int\<close>, or more.
\<close>

definition get_pattern_fn ::
  "simulation_cec_stats \<Rightarrow> nat \<Rightarrow> nat \<Rightarrow> dynamic_truth_table \<Rightarrow> dynamic_truth_table option" where
  "get_pattern_fn st pi_number round_number tt =
     (if 2 ^ 31 \<le> round_number then None
      else if pi_number \<le> split_var st then Some tt
      else if 32 \<le> pi_number - split_var st - 1 then None
      else if drop_bit (pi_number - split_var st - 1) round_number mod 2 \<noteq> 0 then Some tt
      else Some (tt_not tt))"

text \<open>The body of the \<^verbatim>\<open>foreach_pi\<close> callback of \<^verbatim>\<open>run\<close>: the table stored for one input.\<close>

definition pi_pattern ::
  "simulation_cec_stats \<Rightarrow> nat \<Rightarrow> nat \<Rightarrow> dynamic_truth_table option" where
  "pi_pattern st round_number pi_number =
     (let tt = new_tt (split_var st);
          tt = (if pi_number \<le> split_var st then create_nth_var tt (pi_number - 1) else tt)
      in get_pattern_fn st pi_number round_number tt)"

text \<open>
  The \<^verbatim>\<open>foreach_pi\<close> loop of \<^verbatim>\<open>run\<close>: the pattern map after the tables of all primary
  inputs are stored, undefined as soon as one call of \<^verbatim>\<open>get_pattern_\<close> is.
\<close>

definition update_pis ::
  "network \<Rightarrow> simulation_cec_stats \<Rightarrow> nat \<Rightarrow> pattern_t \<Rightarrow> pattern_t option" where
  "update_pis ntk st round_number p =
     foldl (\<lambda>q pi_number.
              case q of
                None \<Rightarrow> None
              | Some m \<Rightarrow>
                  (case pi_pattern st round_number pi_number of
                     None \<Rightarrow> None
                   | Some tt \<Rightarrow> Some (m(pi_number \<mapsto> tt))))
           (Some p) (foreach_pi ntk)"

subsection \<open>The output test\<close>

text \<open>
  The \<^verbatim>\<open>foreach_po\<close> loop of \<^verbatim>\<open>is_equivalent_\<close>: the value of the verdict, which the
  function gets by reference, after all primary outputs are visited.
\<close>

definition foreach_po_update :: "bool \<Rightarrow> network \<Rightarrow> pattern_t \<Rightarrow> bool" where
  "foreach_po_update is_equivalent ntk p =
     foldl (\<lambda>e f. if is_complemented f
                   then e \<and> is_const0 (tt_not (pattern_at p (get_node f)))
                   else e \<and> is_const0 (pattern_at p (get_node f)))
           is_equivalent (pos ntk)"

text \<open>
  \<^verbatim>\<open>is_equivalent_\<close> itself is declared to return \<^verbatim>\<open>bool\<close>, and after the loop its body
  ends without a return statement: every call is undefined, whatever the loop has
  computed.
\<close>

definition is_equivalent_fn :: "bool \<Rightarrow> network \<Rightarrow> pattern_t \<Rightarrow> bool option" where
  "is_equivalent_fn is_equivalent ntk p =
     (let is_equivalent = foreach_po_update is_equivalent ntk p in None)"

subsection \<open>The round loop\<close>

record run_state =
  patterns :: pattern_t
  is_equivalent :: bool
  printed :: "nat list"

text \<open>
  The loop of \<^verbatim>\<open>run\<close>: one round prints its number, stores the patterns of the primary
  inputs, calls the propagation engine and then the output test, and increments the
  counter. The pattern map is created once, before the loop, and is handed from round
  to round. The counter is an \<^verbatim>\<open>int\<close>: incrementing \<open>2 ^ 31 - 1\<close> overflows.
\<close>

function round_loop ::
  "simulator \<Rightarrow> network \<Rightarrow> simulation_cec_stats \<Rightarrow> nat \<Rightarrow> run_state \<Rightarrow> run_state option" where
  "round_loop sim ntk st round_number s =
     (if round_number < rounds st then
        (case update_pis ntk st round_number (patterns s) of
           None \<Rightarrow> None
         | Some p \<Rightarrow>
             (let p = sim ntk (split_var st) p in
              case is_equivalent_fn (is_equivalent s) ntk p of
                None \<Rightarrow> None
              | Some e \<Rightarrow>
                  if 2 ^ 31 \<le> Suc round_number then None
                  else round_loop sim ntk st (Suc round_number)
                         \<lparr>patterns = p, is_equivalent = e,
                          printed = printed s @ [round_number]\<rparr>))
      else Some s)"
  by pat_completeness auto
termination
  by (relation "measure (\<lambda>(sim, ntk, st, round_number, s). rounds st - round_number)") auto

declare round_loop.simps [simp del]

text \<open>\<^verbatim>\<open>run\<close>: the plan is stored in the stats, then the loop starts with the verdict true.\<close>

definition run ::
  "simulator \<Rightarrow> network \<Rightarrow> simulation_cec_stats \<Rightarrow> (bool \<times> simulation_cec_stats \<times> nat list) option" where
  "run sim ntk st0 =
     (case split_var_fn ntk (num_pis ntk) of
        None \<Rightarrow> None
      | Some sv \<Rightarrow>
          (case rounds_fn (num_pis ntk) sv of
             None \<Rightarrow> None
           | Some rn \<Rightarrow>
               (let st = st0\<lparr>split_var := sv, rounds := rn\<rparr> in
                case round_loop sim ntk st 0
                       \<lparr>patterns = Map.empty, is_equivalent = True, printed = []\<rparr> of
                  None \<Rightarrow> None
                | Some s \<Rightarrow> Some (is_equivalent s, st, printed s))))"

subsection \<open>The entry point\<close>

text \<open>
  The stats pointer \<^verbatim>\<open>pst\<close> is \<open>None\<close> when it is null and \<open>Some s\<close> when it points to a
  stats object holding \<open>s\<close>. The outcome of a call is the optional boolean returned, the
  content of the caller's stats object afterwards, and the round numbers printed.
\<close>

record cec_outcome =
  returned :: "bool option"
  pst_after :: "simulation_cec_stats option"
  rounds_printed :: "nat list"

definition simulation_cec ::
  "miter_builder \<Rightarrow> simulator \<Rightarrow> network \<Rightarrow> network \<Rightarrow> simulation_cec_stats option
     \<Rightarrow> cec_outcome option" where
  "simulation_cec miter sim ntk1 ntk2 pst =
     (let st = \<lparr>split_var = 0, rounds = 0\<rparr>; result = False in
      if num_pis ntk1 > 40
      then Some \<lparr>returned = None, pst_after = pst, rounds_printed = []\<rparr>
      else
        (case miter ntk1 ntk2 of
           None \<Rightarrow>
             Some \<lparr>returned = Some result,
                   pst_after = (if pst \<noteq> None then Some st else pst),
                   rounds_printed = []\<rparr>
         | Some ntk_miter \<Rightarrow>
             (case run sim ntk_miter st of
                None \<Rightarrow> None
              | Some (result, st, out) \<Rightarrow>
                  Some \<lparr>returned = Some result,
                        pst_after = (if pst \<noteq> None then Some st else pst),
                        rounds_printed = out\<rparr>)))"

subsection \<open>Notions of the specification\<close>

text \<open>
  The quantity whose logarithm the planner takes, \<open>budget / nodeCount - overheadPerNode\<close>
  with a budget of \<open>2 ^ 29\<close> bits and an overhead of \<open>32\<close> bits per node.
\<close>

definition slack :: "nat \<Rightarrow> real" where
  "slack nodeCount = 2 ^ 29 / real nodeCount - 32"

text \<open>The specification's \<open>maxSplit = floor (log2 (budget / nodeCount - overheadPerNode)) + 3\<close>.\<close>

definition maxSplit :: "nat \<Rightarrow> int" where
  "maxSplit nodeCount = \<lfloor>log 2 (slack nodeCount)\<rfloor> + 3"

text \<open>The three patterns of the pattern rule, over \<open>W\<close> variables.\<close>

definition variable_pattern :: "nat \<Rightarrow> nat \<Rightarrow> dynamic_truth_table" where
  "variable_pattern W v = map (\<lambda>j. odd (j div 2 ^ v)) [0..<2 ^ W]"

definition all_zero :: "nat \<Rightarrow> dynamic_truth_table" where
  "all_zero W = replicate (2 ^ W) False"

definition all_one :: "nat \<Rightarrow> dynamic_truth_table" where
  "all_one W = replicate (2 ^ W) True"

text \<open>
  The tuple of patterns that round \<open>r\<close> assigns to the enumerated inputs, those with an
  index above the number of split variables; there is none when the patterns of the
  round are undefined.
\<close>

definition enumerated ::
  "network \<Rightarrow> simulation_cec_stats \<Rightarrow> nat \<Rightarrow> dynamic_truth_table list option" where
  "enumerated ntk st r =
     (case update_pis ntk st r Map.empty of
        None \<Rightarrow> None
      | Some q \<Rightarrow> Some (map (pattern_at q) [Suc (split_var st)..<Suc (num_pis ntk)]))"

text \<open>
  The test of one primary output: its pattern, complemented first when the output is
  complemented, is the all-zero table.
\<close>

definition output_is_zero :: "pattern_t \<Rightarrow> signal \<Rightarrow> bool" where
  "output_is_zero p f =
     is_const0 (if is_complemented f then tt_not (pattern_at p (get_node f))
                else pattern_at p (get_node f))"

subsection \<open>Example inputs\<close>

text \<open>
  Concrete inputs on which the statements below are instantiated: a network of 4 nodes
  with 2 primary inputs, one of \<open>2 ^ 23\<close> nodes with 9 primary inputs whose plan has two
  rounds, one with 41 primary inputs, one of 6000000 nodes with 40 primary inputs, and
  a propagation engine that sets node 3 to the all-zero table.
\<close>

abbreviation net_small :: network where
  "net_small \<equiv> \<lparr>nodes_size = 4, num_pis = 2, pos = [\<lparr>get_node = 3, is_complemented = False\<rparr>]\<rparr>"

abbreviation net_large :: network where
  "net_large \<equiv> \<lparr>nodes_size = 8388608, num_pis = 9, pos = [\<lparr>get_node = 10, is_complemented = False\<rparr>]\<rparr>"

abbreviation net_wide :: network where
  "net_wide \<equiv> \<lparr>nodes_size = 42, num_pis = 41, pos = []\<rparr>"

abbreviation net_huge :: network where
  "net_huge \<equiv> \<lparr>nodes_size = 6000000, num_pis = 40, pos = [\<lparr>get_node = 41, is_complemented = False\<rparr>]\<rparr>"

abbreviation zero_engine :: simulator where
  "zero_engine \<equiv> \<lambda>ntk W p. p(3 \<mapsto> all_zero W)"

section \<open>Auxiliary facts\<close>

subsection \<open>Conversions and the number of rounds\<close>

lemma to_uint32_of_nat: "to_uint32 (real k) = (if k < 2 ^ 32 then Some k else None)"
proof -
  have "trunc (real k) = int k" by (simp add: trunc_def)
  moreover have "(int k < 2 ^ 32) = (k < 2 ^ 32)"
    by (metis of_nat_less_iff of_nat_numeral of_nat_power)
  ultimately show ?thesis by (simp add: to_uint32_def)
qed

lemma to_uint32_small: "- 1 < v \<Longrightarrow> v < 2 ^ 32 \<Longrightarrow> to_uint32 v = Some (nat \<lfloor>v\<rfloor>)"
proof (cases "0 \<le> v")
  case True
  assume "v < 2 ^ 32"
  then have "\<lfloor>v\<rfloor> < 2 ^ 32" by (simp add: floor_less_iff)
  with True show ?thesis by (simp add: to_uint32_def trunc_def)
next
  case False
  assume "- 1 < v"
  with False have c: "\<lceil>v\<rceil> = 0" by (simp add: ceiling_eq_iff)
  from False have "\<lfloor>v\<rfloor> < 0" by (simp add: floor_less_iff)
  with False c show ?thesis by (simp add: to_uint32_def trunc_def)
qed

lemma to_uint32_neg: "v \<le> - 1 \<Longrightarrow> to_uint32 v = None"
proof -
  assume v: "v \<le> - 1"
  then have "\<lceil>v\<rceil> \<le> - 1" by (simp add: ceiling_le_iff)
  with v show ?thesis by (simp add: to_uint32_def trunc_def)
qed

lemma rounds_fn_eq [code]:
  "rounds_fn N sv = (let e = (N + 2 ^ 32 - sv) mod 2 ^ 32 in if e < 32 then Some (2 ^ e) else None)"
proof -
  define e where "e = (N + 2 ^ 32 - sv) mod 2 ^ 32"
  have "2 powr real e = real (2 ^ e)" by (simp add: powr_realpow)
  then have "rounds_fn N sv = (if (2::nat) ^ e < 2 ^ 32 then Some (2 ^ e) else None)"
    unfolding rounds_fn_def e_def[symmetric] by (simp only: to_uint32_of_nat)
  moreover have "((2::nat) ^ e < 2 ^ 32) = (e < 32)"
    by (rule power_strict_increasing_iff) simp
  ultimately show ?thesis unfolding e_def[symmetric] by (simp only: Let_def)
qed

lemma rounds_fn_diff:
  assumes "sv \<le> N" and "N < 2 ^ 32"
  shows "rounds_fn N sv = (if N - sv < 32 then Some (2 ^ (N - sv)) else None)"
proof -
  from assms have "N + 2 ^ 32 - sv = (N - sv) + 2 ^ 32" by simp
  moreover from assms have "N - sv < 2 ^ 32" by simp
  ultimately have "(N + 2 ^ 32 - sv) mod 2 ^ 32 = N - sv" by (simp only: mod_add_self2 mod_less)
  then show ?thesis by (simp only: rounds_fn_eq Let_def)
qed

lemma rounds_fn_range:
  assumes "rounds_fn N sv = Some rn"
  shows "0 < rn" and "rn \<le> 2 ^ 31"
proof -
  let ?e = "(N + 2 ^ 32 - sv) mod 2 ^ 32"
  from assms have e: "?e < 32" and rn: "rn = 2 ^ ?e"
    by (auto simp: rounds_fn_eq Let_def split: if_splits)
  from rn show "0 < rn" by simp
  from e have "?e \<le> 31" by simp
  then have "(2::nat) ^ ?e \<le> 2 ^ 31" by (rule power_increasing) simp
  with rn show "rn \<le> 2 ^ 31" by simp
qed

lemma rounds_fn_width:
  assumes "rounds_fn N sv = Some rn" and "N < 2 ^ 32"
  shows "N \<le> sv + 32"
proof (cases "sv \<le> N")
  case True
  from True assms(2)
  have "rounds_fn N sv = (if N - sv < 32 then Some (2 ^ (N - sv)) else None)"
    by (rule rounds_fn_diff)
  with assms(1) have "N - sv < 32" by (simp split: if_splits)
  then show ?thesis by simp
next
  case False
  then show ?thesis by simp
qed

subsection \<open>The logarithm of the planner\<close>

lemma slack_pos_iff: "0 < n \<Longrightarrow> (0 < slack n) = (n < 2 ^ 24)"
proof -
  assume n: "0 < n"
  have "(0 < slack n) = (32 * real n < 2 ^ 29)"
    using n by (simp add: slack_def field_simps)
  also have "\<dots> = (real (32 * n) < real (2 ^ 29))" by simp
  also have "\<dots> = (32 * n < 2 ^ 29)" by (simp only: of_nat_less_iff)
  also have "\<dots> = (n < 2 ^ 24)" by simp
  finally show ?thesis .
qed

lemma slack_ge_quarter_iff: "0 < n \<Longrightarrow> (1 / 4 \<le> slack n) = (129 * n \<le> 2 ^ 31)"
proof -
  assume n: "0 < n"
  have "(1 / 4 \<le> slack n) = (129 * real n \<le> 2 ^ 31)"
    using n by (simp add: slack_def field_simps)
  also have "\<dots> = (real (129 * n) \<le> real (2 ^ 31))" by simp
  also have "\<dots> = (129 * n \<le> 2 ^ 31)" by (simp only: of_nat_le_iff)
  finally show ?thesis .
qed

lemma slack_ge_eighth_iff: "0 < n \<Longrightarrow> (1 / 8 \<le> slack n) = (257 * n \<le> 2 ^ 32)"
proof -
  assume n: "0 < n"
  have "(1 / 8 \<le> slack n) = (257 * real n \<le> 2 ^ 32)"
    using n by (simp add: slack_def field_simps)
  also have "\<dots> = (real (257 * n) \<le> real (2 ^ 32))" by simp
  also have "\<dots> = (257 * n \<le> 2 ^ 32)" by (simp only: of_nat_le_iff)
  finally show ?thesis .
qed

lemma slack_gt_sixteenth_iff: "0 < n \<Longrightarrow> (1 / 16 < slack n) = (513 * n < 2 ^ 33)"
proof -
  assume n: "0 < n"
  have "(1 / 16 < slack n) = (513 * real n < 2 ^ 33)"
    using n by (simp add: slack_def field_simps)
  also have "\<dots> = (real (513 * n) < real (2 ^ 33))" by simp
  also have "\<dots> = (513 * n < 2 ^ 33)" by (simp only: of_nat_less_iff)
  finally show ?thesis .
qed

lemma log2_plus3_eq: "0 < x \<Longrightarrow> log 2 x + 3 = log 2 (8 * x)"
proof -
  assume "0 < x"
  then have "log 2 (8 * x) = log 2 8 + log 2 x" by (simp add: log_mult)
  moreover have "log 2 8 = 3" using log_pow_cancel[of 2 3] by simp
  ultimately show ?thesis by simp
qed

lemma log2_plus3_ge0: "1 / 8 \<le> x \<Longrightarrow> 0 \<le> log 2 x + 3"
proof -
  assume x: "1 / 8 \<le> x"
  then have "0 < x" by simp
  then have "log 2 x + 3 = log 2 (8 * x)" by (rule log2_plus3_eq)
  moreover from x have "0 \<le> log 2 (8 * x)" by (simp add: zero_le_log_cancel_iff)
  ultimately show ?thesis by simp
qed

lemma log2_plus3_gt: "0 < x \<Longrightarrow> (- 1 < log 2 x + 3) = (1 / 16 < x)"
proof -
  assume x: "0 < x"
  have "(- 1 < log 2 x + 3) = (- 1 < log 2 (8 * x))" using x by (simp add: log2_plus3_eq)
  also have "\<dots> = (2 powr (- 1) < 8 * x)" using x by (simp add: less_log_iff)
  also have "\<dots> = (1 / 16 < x)" by (simp add: powr_minus field_simps)
  finally show ?thesis .
qed

lemma log2_plus3_lt0: "0 < x \<Longrightarrow> x < 1 / 8 \<Longrightarrow> log 2 x + 3 < 0"
proof -
  assume x: "0 < x" and y: "x < 1 / 8"
  have "log 2 (8 * x) < 0" using x y by (simp add: log_less_zero_cancel_iff)
  then show ?thesis using x by (simp add: log2_plus3_eq)
qed

lemma slack_log_bound: "0 < n \<Longrightarrow> 0 < slack n \<Longrightarrow> log 2 (slack n) + 3 < 2 ^ 32"
proof -
  assume n: "0 < n" and s: "0 < slack n"
  have "slack n \<le> 2 ^ 29"
  proof -
    have "(2::real) ^ 29 / real n \<le> 2 ^ 29" using n by (simp add: field_simps)
    then show ?thesis by (simp add: slack_def)
  qed
  then have "log 2 (slack n) \<le> log 2 (2 ^ 29)" using s by (simp add: log_le_cancel_iff del: log_pow_cancel)
  also have "\<dots> = 29" using log_pow_cancel[of 2 29] by simp
  finally show ?thesis by simp
qed

lemma max_m_fn_slack:
  "max_m_fn ntk =
     (if nodes_size ntk = 0 \<or> slack (nodes_size ntk) \<le> 0 then None
      else to_uint32 (log 2 (slack (nodes_size ntk)) + 3))"
  by (simp add: max_m_fn_def slack_def log_def Let_def)

lemma max_m_fn_None:
  assumes "nodes_size ntk = 0 \<or> 2 ^ 33 \<le> 513 * nodes_size ntk"
  shows "max_m_fn ntk = None"
proof (cases "nodes_size ntk = 0 \<or> slack (nodes_size ntk) \<le> 0")
  case True
  then show ?thesis by (simp add: max_m_fn_slack)
next
  case False
  with assms have "\<not> 1 / 16 < slack (nodes_size ntk)"
    using slack_gt_sixteenth_iff[of "nodes_size ntk"] by simp
  with False have "log 2 (slack (nodes_size ntk)) + 3 \<le> - 1"
    using log2_plus3_gt[of "slack (nodes_size ntk)"] by simp
  then have "to_uint32 (log 2 (slack (nodes_size ntk)) + 3) = None" by (rule to_uint32_neg)
  with False show ?thesis by (simp add: max_m_fn_slack)
qed

lemma max_m_fn_floor:
  assumes nn: "nodes_size ntk = n" and n: "0 < n" and b: "513 * n < 2 ^ 33"
  shows "max_m_fn ntk = Some (nat \<lfloor>log 2 (slack n) + 3\<rfloor>)"
proof -
  from n b have s16: "1 / 16 < slack n" using slack_gt_sixteenth_iff[of n] by simp
  then have pos: "0 < slack n" by simp
  from pos s16 have "- 1 < log 2 (slack n) + 3" by (simp add: log2_plus3_gt)
  moreover from n pos have "log 2 (slack n) + 3 < 2 ^ 32" by (rule slack_log_bound)
  ultimately have "to_uint32 (log 2 (slack n) + 3) = Some (nat \<lfloor>log 2 (slack n) + 3\<rfloor>)"
    by (rule to_uint32_small)
  with nn n pos show ?thesis by (simp add: max_m_fn_slack)
qed

lemma max_m_fn_zero:
  assumes nn: "nodes_size ntk = n" and n: "0 < n" and b: "513 * n < 2 ^ 33"
    and c: "2 ^ 32 < 257 * n"
  shows "max_m_fn ntk = Some 0"
proof -
  from n b have s16: "1 / 16 < slack n" using slack_gt_sixteenth_iff[of n] by simp
  from n c have "\<not> 1 / 8 \<le> slack n" using slack_ge_eighth_iff[of n] by simp
  with s16 have "log 2 (slack n) + 3 < 0" by (intro log2_plus3_lt0) simp_all
  moreover have "\<lfloor>v\<rfloor> < 0" if "v < 0" for v :: real
    using that by (simp add: floor_less_iff)
  ultimately have "\<lfloor>log 2 (slack n) + 3\<rfloor> < 0" by blast
  with max_m_fn_floor[OF nn n b] show ?thesis by simp
qed

lemma floor_log2_quotient:
  assumes n: "0 < n" and q: "n \<le> P"
  shows "\<lfloor>log 2 (real P / real n)\<rfloor> = int (floorlog 2 (P div n)) - 1"
proof -
  from n q have d: "1 \<le> P div n" by (simp add: Suc_le_eq div_greater_zero_iff)
  have "real P / real n = real (P div n) + real (P mod n) / real n"
    by (rule of_nat_of_nat_div_aux)
  moreover have "0 \<le> real (P mod n) / real n" by simp
  moreover have "real (P mod n) / real n < 1" using n by simp
  ultimately have "\<lfloor>log (real 2) (real P / real n)\<rfloor> = \<lfloor>log (real 2) (real (P div n))\<rfloor>"
    using d floor_log_add_eqI[of 2 "P div n" "real (P mod n) / real n"] by simp
  moreover have "0 \<le> \<lfloor>log 2 (real (P div n))\<rfloor>" using d by (simp add: zero_le_log_cancel_iff)
  ultimately show ?thesis using d by (simp add: floorlog_def)
qed

lemma eight_slack:
  "0 < n \<Longrightarrow> 32 * n \<le> 2 ^ 29 \<Longrightarrow> 8 * slack n = real (2 ^ 32 - 256 * n) / real n"
  by (simp add: slack_def field_simps of_nat_diff)

lemma max_m_fn_floorlog:
  assumes nn: "nodes_size ntk = n" and n: "0 < n" and c: "257 * n \<le> 2 ^ 32"
  shows "max_m_fn ntk = Some (floorlog 2 ((2 ^ 32 - 256 * n) div n) - 1)"
proof -
  from c have b: "513 * n < 2 ^ 33" by simp
  from n c have s8: "1 / 8 \<le> slack n" using slack_ge_eighth_iff[of n] by simp
  then have pos: "0 < slack n" by simp
  from c have le: "n \<le> 2 ^ 32 - 256 * n" by simp
  from c have "32 * n \<le> 2 ^ 29" by simp
  with n have "8 * slack n = real (2 ^ 32 - 256 * n) / real n" by (rule eight_slack)
  with pos have "log 2 (slack n) + 3 = log 2 (real (2 ^ 32 - 256 * n) / real n)"
    by (simp add: log2_plus3_eq)
  then have "\<lfloor>log 2 (slack n) + 3\<rfloor> = int (floorlog 2 ((2 ^ 32 - 256 * n) div n)) - 1"
    using floor_log2_quotient[OF n le] by simp
  with max_m_fn_floor[OF nn n b] show ?thesis by (simp add: nat_diff_distrib')
qed

text \<open>
  The bound of the planner computed on integers only: undefined from 16744512 nodes on,
  zero from 16711936 nodes on, and otherwise the position of the leading bit of the
  integer quotient \<open>(2 ^ 32 - 256 * n) div n\<close>.
\<close>

lemma max_m_fn_code [code]:
  "max_m_fn ntk =
     (let n = nodes_size ntk in
      if n = 0 \<or> 2 ^ 33 \<le> 513 * n then None
      else if 2 ^ 32 < 257 * n then Some 0
      else Some (floorlog 2 ((2 ^ 32 - 256 * n) div n) - 1))"
proof (cases "nodes_size ntk = 0 \<or> 2 ^ 33 \<le> 513 * nodes_size ntk")
  case True
  then show ?thesis by (simp only: max_m_fn_None Let_def if_True)
next
  case False
  then have n: "0 < nodes_size ntk" and b: "513 * nodes_size ntk < 2 ^ 33" by simp_all
  show ?thesis
  proof (cases "2 ^ 32 < 257 * nodes_size ntk")
    case True
    with False max_m_fn_zero[OF refl n b] show ?thesis by (simp add: Let_def)
  next
    case c: False
    then have "257 * nodes_size ntk \<le> 2 ^ 32" by simp
    from max_m_fn_floorlog[OF refl n this] False c show ?thesis by (simp add: Let_def)
  qed
qed

lemma max_m_fn_maxSplit:
  assumes nn: "nodes_size ntk = n" and n: "0 < n" and c: "257 * n \<le> 2 ^ 32"
  shows "max_m_fn ntk = Some (nat (maxSplit n))" and "0 \<le> maxSplit n"
proof -
  from c have b: "513 * n < 2 ^ 33" by simp
  have fl: "\<lfloor>log 2 (slack n) + 3\<rfloor> = maxSplit n" by (simp add: maxSplit_def)
  from max_m_fn_floor[OF nn n b] fl show "max_m_fn ntk = Some (nat (maxSplit n))" by simp
  from n c have "1 / 8 \<le> slack n" using slack_ge_eighth_iff[of n] by simp
  then have "0 \<le> log 2 (slack n) + 3" by (rule log2_plus3_ge0)
  then have "0 \<le> \<lfloor>log 2 (slack n) + 3\<rfloor>" by (simp only: zero_le_floor)
  with fl show "0 \<le> maxSplit n" by simp
qed

lemma maxSplit_pos:
  assumes n: "0 < n" and c: "129 * n \<le> 2 ^ 31"
  shows "1 \<le> maxSplit n"
proof -
  from n c have q: "1 / 4 \<le> slack n" using slack_ge_quarter_iff[of n] by simp
  then have pos: "0 < slack n" by simp
  from q have "2 powr 1 \<le> 8 * slack n" by simp
  then have "1 \<le> log 2 (8 * slack n)" using pos by (simp add: le_log_iff)
  then have "1 \<le> log 2 (slack n) + 3" using pos by (simp add: log2_plus3_eq)
  then have "1 \<le> \<lfloor>log 2 (slack n) + 3\<rfloor>" by (simp only: le_floor_iff of_int_1)
  then show ?thesis by (simp add: maxSplit_def)
qed

lemma maxSplit_minus_one:
  assumes n: "0 < n" and b: "513 * n < 2 ^ 33" and c: "2 ^ 32 < 257 * n"
  shows "maxSplit n = - 1"
proof -
  from n b have s16: "1 / 16 < slack n" using slack_gt_sixteenth_iff[of n] by simp
  from n c have s8: "slack n < 1 / 8" using slack_ge_eighth_iff[of n] by simp
  from s16 have pos: "0 < slack n" by simp
  have "2 powr real_of_int (- 4) = 1 / 16" by (simp add: powr_minus_divide)
  moreover have "2 powr real_of_int (- 4 + 1) = 1 / 8" by (simp add: powr_minus_divide)
  ultimately have "\<lfloor>log 2 (slack n)\<rfloor> = - 4"
    using s16 s8 floor_log_eq_powr_iff[of "slack n" 2 "- 4"] pos by simp
  then show ?thesis by (simp add: maxSplit_def)
qed

lemma split_var_fn_Some:
  "max_m_fn ntk = Some m \<Longrightarrow> split_var_fn ntk N = Some (min N m)"
  by (simp add: split_var_fn_def min_def)

lemma split_var_fn_le: "split_var_fn ntk N = Some sv \<Longrightarrow> sv \<le> N"
  by (auto simp: split_var_fn_def split: option.splits if_splits)

subsection \<open>Patterns of the primary inputs\<close>

lemma tt_not_new_tt: "tt_not (new_tt W) = all_one W"
  by (simp add: tt_not_def new_tt_def all_one_def)

lemma create_nth_var_new_tt: "create_nth_var (new_tt W) v = variable_pattern W v"
  by (simp add: create_nth_var_def new_tt_def variable_pattern_def)

text \<open>The table of one primary input, with the cases in which it is undefined.\<close>

lemma pi_pattern_rule:
  "pi_pattern st r i =
     (if 2 ^ 31 \<le> r then None
      else if i \<le> split_var st then Some (variable_pattern (split_var st) (i - 1))
      else if 32 \<le> i - split_var st - 1 then None
      else if and (drop_bit (i - split_var st - 1) r) 1 = 1 then Some (all_zero (split_var st))
      else Some (all_one (split_var st)))"
  by (simp add: pi_pattern_def get_pattern_fn_def Let_def tt_not_new_tt create_nth_var_new_tt
      and_one_eq) (simp add: new_tt_def all_zero_def)

lemma pi_pattern_defined:
  assumes "r < 2 ^ 31" and "i \<le> split_var st + 32"
  shows "pi_pattern st r i =
     Some (if i \<le> split_var st then variable_pattern (split_var st) (i - 1)
           else if and (drop_bit (i - split_var st - 1) r) 1 = 1 then all_zero (split_var st)
           else all_one (split_var st))"
proof -
  from assms(1) have "\<not> 2 ^ 31 \<le> r" by simp
  moreover from assms(2) have "\<not> i \<le> split_var st \<Longrightarrow> \<not> 32 \<le> i - split_var st - 1" by simp
  ultimately show ?thesis by (simp add: pi_pattern_rule)
qed

lemma update_fold_None:
  "foldl (\<lambda>q k. case q of None \<Rightarrow> None
                 | Some m \<Rightarrow> (case g k of None \<Rightarrow> None | Some tt \<Rightarrow> Some (m(k \<mapsto> tt))))
     None xs = None"
  by (induction xs) simp_all

lemma update_fold_Some:
  "list_all (\<lambda>k. g k \<noteq> None) xs \<Longrightarrow>
   foldl (\<lambda>q k. case q of None \<Rightarrow> None
                 | Some m \<Rightarrow> (case g k of None \<Rightarrow> None | Some tt \<Rightarrow> Some (m(k \<mapsto> tt))))
     (Some p) xs = Some (\<lambda>i. if i \<in> set xs then g i else p i)"
proof (induction xs arbitrary: p)
  case Nil
  then show ?case by simp
next
  case (Cons x xs)
  from Cons.prems obtain tt where tt: "g x = Some tt" by auto
  from Cons.prems have "list_all (\<lambda>k. g k \<noteq> None) xs" by simp
  then have "foldl (\<lambda>q k. case q of None \<Rightarrow> None
                 | Some m \<Rightarrow> (case g k of None \<Rightarrow> None | Some tt \<Rightarrow> Some (m(k \<mapsto> tt))))
     (Some (p(x \<mapsto> tt))) xs = Some (\<lambda>i. if i \<in> set xs then g i else (p(x \<mapsto> tt)) i)"
    by (rule Cons.IH)
  moreover have "(\<lambda>i. if i \<in> set xs then g i else (p(x \<mapsto> tt)) i) =
      (\<lambda>i. if i \<in> set (x # xs) then g i else p i)"
    using tt by (auto simp: fun_eq_iff)
  ultimately show ?case using tt by simp
qed

lemma update_fold_undefined:
  "k \<in> set xs \<Longrightarrow> g k = None \<Longrightarrow>
   foldl (\<lambda>q k. case q of None \<Rightarrow> None
                 | Some m \<Rightarrow> (case g k of None \<Rightarrow> None | Some tt \<Rightarrow> Some (m(k \<mapsto> tt))))
     q xs = None"
proof (induction xs arbitrary: q)
  case Nil
  then show ?case by simp
next
  case (Cons x xs)
  show ?case
  proof (cases "x = k")
    case True
    with Cons.prems(2) show ?thesis by (cases q) (simp_all add: update_fold_None)
  next
    case False
    with Cons.prems have "k \<in> set xs" by simp
    then show ?thesis using Cons.prems(2) by (simp add: Cons.IH)
  qed
qed

lemma update_pis_undefined:
  assumes "1 \<le> i" and "i \<le> num_pis ntk" and "pi_pattern st r i = None"
  shows "update_pis ntk st r p = None"
proof -
  from assms(1,2) have "i \<in> set (foreach_pi ntk)" by (auto simp: foreach_pi_def)
  then show ?thesis unfolding update_pis_def using assms(3) by (rule update_fold_undefined)
qed

lemma update_pis_defined:
  assumes r: "r < 2 ^ 31" and w: "num_pis ntk \<le> split_var st + 32"
  shows "update_pis ntk st r p =
     Some (\<lambda>i. if 1 \<le> i \<and> i \<le> num_pis ntk then pi_pattern st r i else p i)"
proof -
  have mem: "(i \<in> set (foreach_pi ntk)) = (1 \<le> i \<and> i \<le> num_pis ntk)" for i
    by (auto simp: foreach_pi_def)
  have "pi_pattern st r k \<noteq> None" if "k \<in> set (foreach_pi ntk)" for k
  proof -
    from that w have "k \<le> split_var st + 32" by (simp add: mem)
    with r show ?thesis by (simp add: pi_pattern_defined)
  qed
  then have "list_all (\<lambda>k. pi_pattern st r k \<noteq> None) (foreach_pi ntk)"
    by (simp add: list_all_iff)
  then have "update_pis ntk st r p =
      Some (\<lambda>i. if i \<in> set (foreach_pi ntk) then pi_pattern st r i else p i)"
    unfolding update_pis_def by (rule update_fold_Some)
  then show ?thesis by (simp add: mem)
qed

lemma all_zero_neq_all_one: "all_zero W \<noteq> all_one W"
proof
  assume "all_zero W = all_one W"
  then have "all_zero W ! 0 = all_one W ! 0" by simp
  then show False by (simp add: all_zero_def all_one_def)
qed

lemma enumerated_eq:
  assumes r: "r < 2 ^ 31" and w: "num_pis ntk \<le> split_var st + 32"
  shows "enumerated ntk st r =
     Some (map (\<lambda>k. if bit r k then all_zero (split_var st) else all_one (split_var st))
             [0..<num_pis ntk - split_var st])"
proof -
  define q where "q = (\<lambda>i. if 1 \<le> i \<and> i \<le> num_pis ntk then pi_pattern st r i else None)"
  have idx: "[Suc (split_var st)..<Suc (num_pis ntk)] =
      map (\<lambda>k. Suc (k + split_var st)) [0..<num_pis ntk - split_var st]"
  proof (cases "split_var st \<le> num_pis ntk")
    case True
    then have "num_pis ntk - split_var st + Suc (split_var st) = Suc (num_pis ntk)" by simp
    with map_add_upt[of "Suc (split_var st)" "num_pis ntk - split_var st"]
    show ?thesis by simp
  next
    case False
    then show ?thesis by simp
  qed
  have el: "pattern_at q (Suc (k + split_var st)) =
      (if bit r k then all_zero (split_var st) else all_one (split_var st))"
    if "k < num_pis ntk - split_var st" for k
  proof -
    from that have in_range: "Suc (k + split_var st) \<le> num_pis ntk" by simp
    with w have "Suc (k + split_var st) \<le> split_var st + 32" by simp
    with r have "pi_pattern st r (Suc (k + split_var st)) =
        Some (if and (drop_bit k r) 1 = 1 then all_zero (split_var st) else all_one (split_var st))"
      by (simp add: pi_pattern_defined)
    with in_range show ?thesis
      by (simp add: q_def pattern_at_def and_one_eq bit_iff_odd_drop_bit mod_2_eq_odd)
  qed
  from r w have "update_pis ntk st r Map.empty = Some q"
    unfolding q_def by (rule update_pis_defined)
  then have "enumerated ntk st r =
      Some (map (pattern_at q) [Suc (split_var st)..<Suc (num_pis ntk)])"
    by (simp add: enumerated_def)
  also have "map (pattern_at q) [Suc (split_var st)..<Suc (num_pis ntk)] =
      map (\<lambda>k. if bit r k then all_zero (split_var st) else all_one (split_var st))
        [0..<num_pis ntk - split_var st]"
    unfolding idx by (simp add: el)
  finally show ?thesis .
qed

lemma bits_inj:
  assumes r: "r < 2 ^ m" and r': "r' < 2 ^ m"
    and eq: "map (\<lambda>k. if bit r k then a else b) [0..<m] = map (\<lambda>k. if bit r' k then a else b) [0..<m]"
    and ab: "a \<noteq> b"
  shows "r = (r'::nat)"
proof -
  have bits: "bit r k = bit r' k" if "k < m" for k
  proof -
    from eq that have "(if bit r k then a else b) = (if bit r' k then a else b)"
      by (simp add: list_eq_iff_nth_eq)
    with ab show ?thesis by (auto split: if_splits)
  qed
  have "take_bit m r = take_bit m r'"
    by (rule bit_eqI) (auto simp: bit_take_bit_iff bits)
  with r r' show ?thesis by (simp add: take_bit_nat_eq_self)
qed

subsection \<open>The output test and the round loop\<close>

lemma foreach_po_update_aux:
  "foldl (\<lambda>e f. if is_complemented f
                   then e \<and> is_const0 (tt_not (pattern_at p (get_node f)))
                   else e \<and> is_const0 (pattern_at p (get_node f))) e0 fs
   = (e0 \<and> list_all (output_is_zero p) fs)"
  by (induction fs arbitrary: e0) (auto simp: output_is_zero_def)

lemma foreach_po_update_conj:
  "foreach_po_update e ntk p = (e \<and> list_all (output_is_zero p) (pos ntk))"
  unfolding foreach_po_update_def by (rule foreach_po_update_aux)

lemma is_equivalent_fn_undefined: "is_equivalent_fn e ntk p = None"
  by (simp add: is_equivalent_fn_def)

lemma round_loop_undefined:
  "r < rounds st \<Longrightarrow> round_loop sim ntk st r s = None"
  by (subst round_loop.simps) (simp add: is_equivalent_fn_undefined Let_def split: option.splits)

subsection \<open>The example inputs evaluated\<close>

lemma plan_small: "split_var_fn net_small 2 = Some 2" "rounds_fn 2 2 = Some 1"
  by (simp_all add: split_var_fn_def max_m_fn_code compute_floorlog rounds_fn_eq)

lemma plan_large: "split_var_fn net_large 9 = Some 8" "rounds_fn 9 8 = Some 2"
  by (simp_all add: split_var_fn_def max_m_fn_code compute_floorlog rounds_fn_eq)

lemma plan_huge: "split_var_fn net_huge 40 = Some 8" "rounds_fn 40 8 = None"
  by (simp_all add: split_var_fn_def max_m_fn_code compute_floorlog rounds_fn_eq)

section \<open>The pattern generator\<close>

text \<open>
  Claim C1. Let the number of rounds be the one that \<^verbatim>\<open>rounds_\<close> returns for the number
  of primary inputs (a 32-bit number) and the number of split variables. In every round
  \<open>r\<close> below the number of rounds, the \<^verbatim>\<open>foreach_pi\<close> loop of \<^verbatim>\<open>run\<close> is defined, and for
  every primary input with 1-based index \<open>i\<close> between \<open>1\<close> and the number of primary inputs
  the table that it writes into the pattern map is: for \<open>i \<le> split_var\<close> the canonical
  pattern of variable \<open>i - 1\<close> over \<open>split_var\<close> variables, whatever the round; otherwise,
  with \<open>bit = (r >> (i - split_var - 1)) & 1\<close>, the all-zero table when the bit is 1 and
  the all-one table when it is 0.
\<close>

theorem pattern_generator_rule:
  assumes "rounds_fn (num_pis ntk) (split_var st) = Some (rounds st)"
    and "num_pis ntk < 2 ^ 32" and "r < rounds st"
    and "1 \<le> i" and "i \<le> num_pis ntk"
  shows "\<exists>q. update_pis ntk st r p = Some q \<and> q i = Some
     (if i \<le> split_var st then variable_pattern (split_var st) (i - 1)
      else if and (drop_bit (i - split_var st - 1) r) 1 = 1 then all_zero (split_var st)
      else all_one (split_var st))"
proof -
  from assms(1) have "rounds st \<le> 2 ^ 31" by (rule rounds_fn_range)
  with assms(3) have r: "r < 2 ^ 31" by simp
  from assms(1,2) have w: "num_pis ntk \<le> split_var st + 32" by (rule rounds_fn_width)
  from r w have "update_pis ntk st r p =
      Some (\<lambda>i. if 1 \<le> i \<and> i \<le> num_pis ntk then pi_pattern st r i else p i)"
    by (rule update_pis_defined)
  moreover from w assms(5) have "i \<le> split_var st + 32" by simp
  with r have "pi_pattern st r i = Some
     (if i \<le> split_var st then variable_pattern (split_var st) (i - 1)
      else if and (drop_bit (i - split_var st - 1) r) 1 = 1 then all_zero (split_var st)
      else all_one (split_var st))"
    by (rule pi_pattern_defined)
  ultimately show ?thesis using assms(4,5) by simp
qed

text \<open>
  With 9 primary inputs, one split variable, hence 256 rounds, and round 2: input 1
  carries the variable, input 2 reads bit 0 of the round number (0, hence all one) and
  input 3 reads bit 1 (1, hence all zero).
\<close>

theorem pattern_generator_rule_witness:
  "rounds_fn 9 1 = Some 256
   \<and> (\<exists>q. update_pis net_large \<lparr>split_var = 1, rounds = 256\<rparr> 2 Map.empty = Some q
        \<and> q 1 = Some [False, True] \<and> q 2 = Some [True, True] \<and> q 3 = Some [False, False])"
proof -
  have v: "variable_pattern (Suc 0) 0 = [False, True]" by code_simp
  have z: "all_zero (Suc 0) = [False, False]" by code_simp
  have o: "all_one (Suc 0) = [True, True]" by code_simp
  have rn: "rounds_fn 9 1 = Some 256" by (simp add: rounds_fn_eq)
  from rn pattern_generator_rule[of net_large "\<lparr>split_var = 1, rounds = 256\<rparr>" 2 1 Map.empty]
  obtain q where q: "update_pis net_large \<lparr>split_var = 1, rounds = 256\<rparr> 2 Map.empty = Some q"
    and q1: "q 1 = Some [False, True]"
    by (auto simp: v)
  from rn pattern_generator_rule[of net_large "\<lparr>split_var = 1, rounds = 256\<rparr>" 2 2 Map.empty] q
  have q2: "q 2 = Some [True, True]" by (simp add: o)
  from rn pattern_generator_rule[of net_large "\<lparr>split_var = 1, rounds = 256\<rparr>" 2 3 Map.empty] q
  have q3: "q 3 = Some [False, False]" by (simp add: z)
  from rn q q1 q2 q3 show ?thesis by simp
qed


section \<open>The split planner\<close>

text \<open>
  Claim C2, as amended. For every node count from 1 to 16711935 (these are the node
  counts with \<open>2 ^ 29 / nodeCount - 32 \<ge> 1 / 8\<close>) and every 32-bit number \<open>N\<close> of primary
  inputs, the planner returns \<open>splitVarCount = min N maxSplit\<close> with
  \<open>maxSplit = floor (log2 (2 ^ 29 / nodeCount - 32)) + 3\<close>; the number of rounds is
  \<open>2 ^ (N - splitVarCount)\<close> whenever \<open>N - splitVarCount < 32\<close>, and it is 1 when
  \<open>N \<le> maxSplit\<close>.
\<close>

theorem split_planner_plan:
  assumes "1 \<le> nodes_size ntk" and "257 * nodes_size ntk \<le> 2 ^ 32" and "N < 2 ^ 32"
  shows "\<exists>sv. split_var_fn ntk N = Some sv
      \<and> int sv = min (int N) (maxSplit (nodes_size ntk))
      \<and> (N - sv < 32 \<longrightarrow> rounds_fn N sv = Some (2 ^ (N - sv)))
      \<and> (int N \<le> maxSplit (nodes_size ntk) \<longrightarrow> rounds_fn N sv = Some 1)"
proof -
  let ?ms = "maxSplit (nodes_size ntk)"
  from assms have n: "0 < nodes_size ntk" by simp
  have m: "max_m_fn ntk = Some (nat ?ms)" and ms0: "0 \<le> ?ms"
    using max_m_fn_maxSplit[OF refl n assms(2)] by simp_all
  let ?sv = "min N (nat ?ms)"
  from m have sv: "split_var_fn ntk N = Some ?sv" by (rule split_var_fn_Some)
  from ms0 have i: "int ?sv = min (int N) ?ms" by linarith
  have r: "rounds_fn N ?sv = (if N - ?sv < 32 then Some (2 ^ (N - ?sv)) else None)"
    using assms(3) by (intro rounds_fn_diff) simp_all
  have one: "rounds_fn N ?sv = Some 1" if "int N \<le> ?ms"
  proof -
    from that ms0 have "?sv = N" by linarith
    with r show ?thesis by simp
  qed
  from sv i r one show ?thesis by (intro exI[of _ ?sv]) simp
qed

text \<open>
  With \<open>2 ^ 23\<close> nodes the bound is 8, so 9 primary inputs are split into 8 simulated
  variables and 2 rounds; with 4 nodes the bound exceeds the 2 primary inputs, and there
  is one round.
\<close>

theorem split_planner_plan_witness:
  "split_var_fn net_large 9 = Some 8 \<and> min 9 (maxSplit 8388608) = 8
   \<and> rounds_fn 9 8 = Some 2
   \<and> split_var_fn net_small 2 = Some 2 \<and> 2 \<le> maxSplit 4 \<and> rounds_fn 2 2 = Some 1"
proof -
  from split_planner_plan[of net_large 9]
  obtain sv where sv: "split_var_fn net_large 9 = Some sv"
    and m: "int sv = min 9 (maxSplit 8388608)"
    and r: "9 - sv < 32 \<longrightarrow> rounds_fn 9 sv = Some (2 ^ (9 - sv))"
    by auto
  from sv have "sv = 8" by (simp add: plan_large)
  with sv m r have large: "split_var_fn net_large 9 = Some 8 \<and> min 9 (maxSplit 8388608) = 8
      \<and> rounds_fn 9 8 = Some 2"
    by simp
  from split_planner_plan[of net_small 2]
  obtain sv' where sv': "split_var_fn net_small 2 = Some sv'"
    and m': "int sv' = min 2 (maxSplit 4)"
    and r': "2 \<le> maxSplit 4 \<longrightarrow> rounds_fn 2 sv' = Some 1"
    by auto
  from sv' have "sv' = 2" by (simp add: plan_small)
  with sv' m' r' have "split_var_fn net_small 2 = Some 2 \<and> 2 \<le> maxSplit 4
      \<and> rounds_fn 2 2 = Some 1"
    by simp
  with large show ?thesis by simp
qed

text \<open>
  Claim C2 as stated fails in two ways. With 16720000 nodes and one primary input the
  logarithm's argument is about 0.11: the formula of the claim gives \<open>maxSplit = - 1\<close> and
  a minimum of \<open>- 1\<close>, while the conversion to \<^verbatim>\<open>uint32_t\<close> truncates \<open>- 0.19\<close> to 0 and the
  planner returns 0. With 6000000 nodes and 40 primary inputs the planner returns 8, and
  \<open>2 ^ 32\<close> rounds do not fit the \<^verbatim>\<open>uint32_t\<close> result of \<^verbatim>\<open>rounds_\<close>.
\<close>

theorem split_planner_counterexample:
  "split_var_fn \<lparr>nodes_size = 16720000, num_pis = 1, pos = []\<rparr> 1 = Some 0
   \<and> min 1 (maxSplit 16720000) = - 1
   \<and> split_var_fn \<lparr>nodes_size = 6000000, num_pis = 40, pos = []\<rparr> 40 = Some 8
   \<and> rounds_fn 40 8 = None"
  by (simp add: split_var_fn_def max_m_fn_code compute_floorlog rounds_fn_eq maxSplit_minus_one)

text \<open>
  Claim C9, as amended. For every node count from 1 to 16647160 (these are the node
  counts with \<open>2 ^ 29 / nodeCount - 32 \<ge> 1 / 4\<close>) and every number \<open>N \<ge> 1\<close> of primary
  inputs, the planner returns a number of split variables with
  \<open>0 < splitVarCount \<le> N\<close>.
\<close>

theorem split_plan_bounds:
  assumes "1 \<le> nodes_size ntk" and "129 * nodes_size ntk \<le> 2 ^ 31" and "1 \<le> N"
  shows "\<exists>sv. split_var_fn ntk N = Some sv \<and> 0 < sv \<and> sv \<le> N"
proof -
  let ?ms = "maxSplit (nodes_size ntk)"
  from assms have n: "0 < nodes_size ntk" by simp
  from assms(2) have c: "257 * nodes_size ntk \<le> 2 ^ 32" by simp
  have m: "max_m_fn ntk = Some (nat ?ms)"
    using max_m_fn_maxSplit[OF refl n c] by simp
  from n assms(2) have "1 \<le> ?ms" by (rule maxSplit_pos)
  then have "0 < nat ?ms" by simp
  with assms(3) have "0 < min N (nat ?ms) \<and> min N (nat ?ms) \<le> N" by simp
  with split_var_fn_Some[OF m, of N] show ?thesis by blast
qed

theorem split_plan_bounds_witness:
  "\<exists>sv. split_var_fn net_small 2 = Some sv \<and> 0 < sv \<and> sv \<le> 2"
  using split_plan_bounds[of net_small 2] by simp

text \<open>
  Claim C9 as stated fails for larger networks: with 16700000 nodes the bound is
  \<open>floor (log2 0.148) + 3 = 0\<close>, and the planner returns no split variable at all.
\<close>

theorem split_plan_bounds_counterexample:
  "split_var_fn \<lparr>nodes_size = 16700000, num_pis = 1, pos = []\<rparr> 1 = Some 0"
  by (simp add: split_var_fn_def max_m_fn_code compute_floorlog)

section \<open>Round coverage\<close>

text \<open>
  Claim C3, as amended. When there are fewer split variables than primary inputs and the
  difference is below 32, the map from the round numbers below
  \<open>2 ^ (num_pis - split_var)\<close> to the tuple of constant tables given to the primary inputs
  with an index above \<open>split_var\<close> is defined on every such round number and is a
  bijection onto all tuples of that length over the all-zero and the all-one table:
  every assignment of the enumerated inputs occurs in exactly one round.
\<close>

theorem round_coverage:
  assumes "split_var st < num_pis ntk" and "num_pis ntk - split_var st < 32"
  shows "bij_betw (enumerated ntk st) {0..<2 ^ (num_pis ntk - split_var st)}
           (Some ` {cs. set cs \<subseteq> {all_zero (split_var st), all_one (split_var st)}
                        \<and> length cs = num_pis ntk - split_var st})"
proof -
  let ?m = "num_pis ntk - split_var st"
  let ?S = "{0..<(2::nat) ^ ?m}"
  let ?T = "{cs. set cs \<subseteq> {all_zero (split_var st), all_one (split_var st)} \<and> length cs = ?m}"
  let ?f = "\<lambda>r. map (\<lambda>k. if bit r k then all_zero (split_var st) else all_one (split_var st))
                    [0..<?m]"
  from assms(2) have w: "num_pis ntk \<le> split_var st + 32" by simp
  from assms(2) have "?m \<le> 31" by simp
  then have le: "(2::nat) ^ ?m \<le> 2 ^ 31" by (rule power_increasing) simp
  have en: "enumerated ntk st r = Some (?f r)" if "r \<in> ?S" for r
  proof -
    from that le have "r < 2 ^ 31" by simp
    then show ?thesis using w by (rule enumerated_eq)
  qed
  have inj_f: "inj_on ?f ?S"
  proof (rule inj_onI)
    fix r r' assume "r \<in> ?S" and "r' \<in> ?S" and "?f r = ?f r'"
    then show "r = r'"
      using bits_inj[of r ?m r' "all_zero (split_var st)" "all_one (split_var st)"]
      by (simp add: all_zero_neq_all_one)
  qed
  have sub: "?f ` ?S \<subseteq> ?T" by auto
  have fin: "finite ?T" by (rule finite_lists_length_eq) simp
  have "card ?T = card {all_zero (split_var st), all_one (split_var st)} ^ ?m"
    by (rule card_lists_length_eq) simp
  also have "\<dots> = 2 ^ ?m" by (simp add: all_zero_neq_all_one numeral_2_eq_2)
  finally have cT: "card ?T = 2 ^ ?m" .
  have "card (?f ` ?S) = card ?S" using inj_f by (rule card_image)
  with cT have "card (?f ` ?S) = card ?T" by simp
  with fin sub have img: "?f ` ?S = ?T" by (rule card_subset_eq)
  have "inj_on (enumerated ntk st) ?S"
  proof (rule inj_onI)
    fix r r' assume a: "r \<in> ?S" "r' \<in> ?S" and "enumerated ntk st r = enumerated ntk st r'"
    then have eq: "?f r = ?f r'" by (simp add: en)
    from inj_f eq a show "r = r'" by (rule inj_onD)
  qed
  moreover have "enumerated ntk st ` ?S = Some ` ?T"
  proof -
    have "enumerated ntk st ` ?S = (\<lambda>r. Some (?f r)) ` ?S"
      by (rule image_cong) (simp_all add: en)
    also have "\<dots> = Some ` (?f ` ?S)" by (simp add: image_image)
    finally show ?thesis by (simp only: img)
  qed
  ultimately show ?thesis by (simp add: bij_betw_def)
qed

theorem round_coverage_witness:
  "bij_betw (enumerated net_large \<lparr>split_var = 8, rounds = 2\<rparr>) {0..<2}
     (Some ` {cs. set cs \<subseteq> {all_zero 8, all_one 8} \<and> length cs = 1})"
  using round_coverage[of "\<lparr>split_var = 8, rounds = 2\<rparr>" net_large] by simp

text \<open>
  Claim C3 as stated fails when the difference is 32 or more. For a miter of 6000000
  nodes with 40 primary inputs the planner returns 8 split variables; the round number
  \<open>2 ^ 31\<close> lies below \<open>2 ^ (40 - 8)\<close>, but it is no value of the \<^verbatim>\<open>int\<close> round counter, and
  no tuple of tables belongs to it.
\<close>

theorem round_coverage_counterexample:
  "split_var_fn net_huge 40 = Some 8
   \<and> (2147483648::nat) < 2 ^ (40 - 8)
   \<and> enumerated net_huge \<lparr>split_var = 8, rounds = 0\<rparr> 2147483648 = None"
proof -
  have "pi_pattern \<lparr>split_var = 8, rounds = 0\<rparr> 2147483648 9 = None"
    by (simp add: pi_pattern_rule)
  then have "update_pis net_huge \<lparr>split_var = 8, rounds = 0\<rparr> 2147483648 Map.empty = None"
    by (intro update_pis_undefined[of 9]) simp_all
  then show ?thesis by (simp add: enumerated_def plan_huge)
qed


section \<open>The verdict\<close>

text \<open>
  Claim C4. The claim describes what the output test is written to do: its loop over the
  primary outputs conjoins with the verdict the test that the pattern of each output,
  complemented first exactly when the output is complemented, is the all-zero table.
  The code does not deliver it: the function \<^verbatim>\<open>is_equivalent_\<close> around the loop is
  declared \<^verbatim>\<open>bool\<close> and ends without a return statement, so each of its calls, one in
  every round, is undefined.
\<close>

theorem aggregator_missing_return:
  "foreach_po_update e ntk p = (e \<and> list_all (output_is_zero p) (pos ntk))
   \<and> is_equivalent_fn e ntk p = None"
  by (simp add: foreach_po_update_conj is_equivalent_fn_undefined)

text \<open>
  Claim C5. The loop of \<^verbatim>\<open>run\<close> has no early exit, but no call of \<^verbatim>\<open>run\<close> is defined:
  either the plan is undefined (as for the miter of 6000000 nodes with 40 primary inputs,
  whose \<open>2 ^ 32\<close> rounds do not fit the result of \<^verbatim>\<open>rounds_\<close>), or there is at least one
  round, and the first round ends in the call of \<^verbatim>\<open>is_equivalent_\<close>, which is undefined.
  Neither the number of iterations nor the boolean returned is determined by the code.
\<close>

theorem driver_undefined:
  "run sim ntk st0 = None
   \<and> split_var_fn net_huge 40 = Some 8 \<and> rounds_fn 40 8 = None"
proof -
  have "run sim ntk st0 = None"
  proof (cases "split_var_fn ntk (num_pis ntk)")
    case None
    then show ?thesis by (simp add: run_def)
  next
    case (Some sv)
    show ?thesis
    proof (cases "rounds_fn (num_pis ntk) sv")
      case None
      with Some show ?thesis by (simp add: run_def)
    next
      case rn: (Some rn)
      then have "0 < rn" by (rule rounds_fn_range)
      then have "round_loop sim ntk (st0\<lparr>split_var := sv, rounds := rn\<rparr>) 0
          \<lparr>patterns = Map.empty, is_equivalent = True, printed = []\<rparr> = None"
        by (intro round_loop_undefined) simp
      with Some rn show ?thesis by (simp add: run_def Let_def)
    qed
  qed
  then show ?thesis by (simp add: plan_huge)
qed


section \<open>The entry point\<close>

text \<open>
  Claim C6. When the first network has more than 40 primary inputs, \<^verbatim>\<open>simulation_cec\<close>
  returns no value, whatever the second network, the miter builder and the propagation
  engine are: no miter is built, no round runs, and the stats object is left as it was.
\<close>

theorem input_ceiling:
  assumes "num_pis ntk1 > 40"
  shows "simulation_cec miter sim ntk1 ntk2 pst =
     Some \<lparr>returned = None, pst_after = pst, rounds_printed = []\<rparr>"
  using assms by (simp add: simulation_cec_def)

theorem input_ceiling_witness:
  "simulation_cec (\<lambda>a b. Some net_small) zero_engine net_wide net_small None =
     Some \<lparr>returned = None, pst_after = None, rounds_printed = []\<rparr>"
  using input_ceiling[of net_wide "\<lambda>a b. Some net_small" zero_engine net_small None] by simp

text \<open>
  Claim C7. When the first network has at most 40 primary inputs and the miter builder
  returns no network, \<^verbatim>\<open>simulation_cec\<close> returns the value false, and not the absent
  value, and no round runs.
\<close>

theorem miter_failure_verdict:
  assumes "num_pis ntk1 \<le> 40" and "miter ntk1 ntk2 = None"
  shows "\<exists>out. simulation_cec miter sim ntk1 ntk2 pst = Some out
           \<and> returned out = Some False \<and> rounds_printed out = []"
  using assms by (simp add: simulation_cec_def)

theorem miter_failure_verdict_witness:
  "\<exists>out. simulation_cec (\<lambda>a b. None) zero_engine net_small net_large None = Some out
           \<and> returned out = Some False \<and> rounds_printed out = []"
  using miter_failure_verdict[of net_small "\<lambda>a b. None" net_large zero_engine None] by simp

text \<open>
  Claim C10. When the first network has at most 40 primary inputs, the miter builder
  returns no network and a stats object is supplied, \<^verbatim>\<open>simulation_cec\<close> returns false and
  writes exactly \<open>split_var = 0\<close> and \<open>rounds = 0\<close> into the stats object; the planner has
  not run, and the value written does not satisfy \<open>0 < split_var\<close>.
\<close>

theorem miter_failure_stats:
  assumes "num_pis ntk1 \<le> 40" and "miter ntk1 ntk2 = None"
  shows "\<exists>out st. simulation_cec miter sim ntk1 ntk2 (Some s0) = Some out
           \<and> returned out = Some False \<and> rounds_printed out = []
           \<and> pst_after out = Some st \<and> st = \<lparr>split_var = 0, rounds = 0\<rparr>
           \<and> \<not> 0 < split_var st"
  using assms by (simp add: simulation_cec_def)

theorem miter_failure_stats_witness:
  "\<exists>out st. simulation_cec (\<lambda>a b. None) zero_engine net_small net_large
                (Some \<lparr>split_var = 7, rounds = 9\<rparr>) = Some out
           \<and> returned out = Some False \<and> rounds_printed out = []
           \<and> pst_after out = Some st \<and> st = \<lparr>split_var = 0, rounds = 0\<rparr>
           \<and> \<not> 0 < split_var st"
  using miter_failure_stats[of net_small "\<lambda>a b. None" net_large zero_engine
      "\<lparr>split_var = 7, rounds = 9\<rparr>"]
  by simp




end
